theory Spec2Isabelle
  imports Main "HOL-Library.Word"
begin

unbundle bit_operations_syntax

section \<open>The CIM container codec of cimpng.py\<close>

text \<open>
  A shallow embedding of \<^verbatim>\<open>src/cimpng.py\<close>: the three pixel converters, the decode path
  \<^verbatim>\<open>read_cim\<close> and the encode path \<^verbatim>\<open>write_cim\<close>.

  What lies outside the repository is kept outside the model:
  \<^item> \<^verbatim>\<open>zlib\<close> is a parameter: \<open>decompress\<close> returns \<open>None\<close> where
    \<^verbatim>\<open>zlib.decompress\<close> raises \<^verbatim>\<open>zlib.error\<close>, \<open>compress\<close> is total;
  \<^item> the image library is the boundary of the model. \<^verbatim>\<open>read_cim\<close> ends in a call
    \<^verbatim>\<open>Image.frombytes("RGBA", (width, height), rgba)\<close>; the model returns the arguments of
    that call as an \<open>image\<close>. \<^verbatim>\<open>write_cim\<close> starts from \<^verbatim>\<open>img.size\<close> and
    \<^verbatim>\<open>img.tobytes()\<close>; the model takes them as an \<open>image\<close>. What the library does
    with them (and saving the PNG) is not modelled;
  \<^item> file reads and writes are not modelled: the functions take and return the file's bytes.

  Python integers are unbounded, so sizes and products are \<open>nat\<close> and values that enter
  bit arithmetic are \<open>int\<close>. A byte of a Python \<^verbatim>\<open>bytes\<close> object is an \<open>8 word\<close>.
  Every \<^verbatim>\<open>print\<close>-and-\<^verbatim>\<open>return\<close> of the source is an error value; the warning printed by the
  repair step is not part of the result.
\<close>

type_synonym byte = "8 word"

text \<open>Python exceptions that the modelled code can raise.\<close>

datatype exn = IndexError | ValueError | ZeroDivisionError | StructError

text \<open>
  How a call of \<^verbatim>\<open>read_cim\<close> or \<^verbatim>\<open>write_cim\<close> ends when it does not reach its
  last line: the four messages of \<^verbatim>\<open>read_cim\<close>, or an exception that no handler of the
  function catches.
\<close>

datatype error =
    FailedToDecompress
  | FileTooShort
  | UnsupportedFormat
  | FailedToCreateImage exn
  | Uncaught exn

record image =
  size_w :: nat
  size_h :: nat
  rgba :: "byte list"

subsection \<open>Pixel converters\<close>

text \<open>
  \<^verbatim>\<open>bytes([...])\<close> raises \<^verbatim>\<open>ValueError\<close> unless every element is in \<open>range(256)\<close>.
\<close>

definition bytes_of :: "int list \<Rightarrow> exn + byte list" where
  "bytes_of xs =
     (if list_all (\<lambda>x. 0 \<le> x \<and> x < 256) xs then Inr (map word_of_int xs)
      else Inl ValueError)"

text \<open>The body of the loop of \<^verbatim>\<open>convert_rgb565_to_rgba\<close> for \<open>data[i]\<close>, \<open>data[i+1]\<close>.\<close>

definition rgb565_pixel :: "byte \<Rightarrow> byte \<Rightarrow> exn + byte list" where
  "rgb565_pixel d0 d1 =
     (let val = push_bit 8 (uint d0) OR uint d1;
          r = drop_bit 11 val AND 0x1F;
          g = drop_bit 5 val AND 0x3F;
          b = val AND 0x1F;
          r = push_bit 3 r OR drop_bit 2 r;
          g = push_bit 2 g OR drop_bit 4 g;
          b = push_bit 3 b OR drop_bit 2 b
      in bytes_of [r, g, b, 255])"

text \<open>
  \<^verbatim>\<open>for i in range(0, len(data), 2)\<close> visits the consecutive two-byte chunks of \<open>data\<close>;
  a last chunk of one byte raises \<^verbatim>\<open>IndexError\<close> at \<open>data[i+1]\<close>. The first exception
  in loop order is the one raised.
\<close>

fun convert_rgb565_to_rgba :: "byte list \<Rightarrow> exn + byte list" where
  "convert_rgb565_to_rgba [] = Inr []"
| "convert_rgb565_to_rgba [d0] = Inl IndexError"
| "convert_rgb565_to_rgba (d0 # d1 # data) =
     (case rgb565_pixel d0 d1 of
        Inl e \<Rightarrow> Inl e
      | Inr px \<Rightarrow>
          (case convert_rgb565_to_rgba data of
             Inl e \<Rightarrow> Inl e
           | Inr pixels \<Rightarrow> Inr (px @ pixels)))"

definition convert_grayscale_to_rgba :: "byte list \<Rightarrow> byte list" where
  "convert_grayscale_to_rgba data = concat (map (\<lambda>v. [v, v, v, 255]) data)"

text \<open>
  \<^verbatim>\<open>for i in range(0, len(data), 3)\<close>: a last chunk of one or two bytes raises
  \<^verbatim>\<open>IndexError\<close> at \<open>data[i+1]\<close> or \<open>data[i+2]\<close>. The three values are bytes already,
  so \<^verbatim>\<open>bytes([r, g, b, 255])\<close> cannot fail.
\<close>

fun convert_rgb888_to_rgba :: "byte list \<Rightarrow> exn + byte list" where
  "convert_rgb888_to_rgba [] = Inr []"
| "convert_rgb888_to_rgba (r # g # b # data) =
     (case convert_rgb888_to_rgba data of
        Inl e \<Rightarrow> Inl e
      | Inr pixels \<Rightarrow> Inr ([r, g, b, 255] @ pixels))"
| "convert_rgb888_to_rgba _ = Inl IndexError"

subsection \<open>The header: \<^verbatim>\<open>struct.pack\<close> and \<^verbatim>\<open>struct.unpack\<close> with \<^verbatim>\<open>">III"\<close>\<close>

definition be_u32 :: "byte list \<Rightarrow> nat" where
  "be_u32 bs = foldl (\<lambda>a b. a * 256 + unat b) 0 bs"

definition struct_unpack_III :: "byte list \<Rightarrow> nat \<times> nat \<times> nat" where
  "struct_unpack_III hdr =
     (be_u32 (take 4 hdr), be_u32 (take 4 (drop 4 hdr)), be_u32 (take 4 (drop 8 hdr)))"

definition u32_bytes :: "nat \<Rightarrow> byte list" where
  "u32_bytes n =
     [of_nat (n div 2 ^ 24), of_nat (n div 2 ^ 16), of_nat (n div 2 ^ 8), of_nat n]"

text \<open>\<^verbatim>\<open>struct.pack\<close> raises \<^verbatim>\<open>struct.error\<close> for an argument outside \<open>0 .. 2^32 - 1\<close>.\<close>

definition struct_pack_III :: "nat \<Rightarrow> nat \<Rightarrow> nat \<Rightarrow> exn + byte list" where
  "struct_pack_III a b c =
     (if a < 2 ^ 32 \<and> b < 2 ^ 32 \<and> c < 2 ^ 32
      then Inr (u32_bytes a @ u32_bytes b @ u32_bytes c)
      else Inl StructError)"

subsection \<open>Decoding: \<^verbatim>\<open>read_cim\<close>\<close>

text \<open>The selector values offered by \<^verbatim>\<open>ask_for_format\<close>.\<close>

abbreviation (input) RGBA8888 :: int where "RGBA8888 \<equiv> 0"
abbreviation (input) RGB888 :: int where "RGB888 \<equiv> 1"
abbreviation (input) RGB565 :: int where "RGB565 \<equiv> 2"
abbreviation (input) Grayscale8 :: int where "Grayscale8 \<equiv> 3"

definition bpp_map :: "int \<rightharpoonup> nat" where
  "bpp_map = [0 \<mapsto> 4, 1 \<mapsto> 3, 2 \<mapsto> 2, 3 \<mapsto> 1]"

text \<open>\<^verbatim>\<open>bpp_map.get(fmt, 4)\<close>\<close>

definition bpp_of :: "int \<Rightarrow> nat" where
  "bpp_of fmt = (case bpp_map fmt of Some n \<Rightarrow> n | None \<Rightarrow> 4)"

text \<open>
  Lines 62 to 66, the repair step. The division is outside the \<^verbatim>\<open>try\<close> block, so a
  zero divisor would leave \<^verbatim>\<open>read_cim\<close> as an uncaught \<^verbatim>\<open>ZeroDivisionError\<close>.
  The result is the pair \<open>(height, pixels)\<close> after the step.
\<close>

definition repair :: "nat \<Rightarrow> nat \<Rightarrow> nat \<Rightarrow> byte list \<Rightarrow> error + nat \<times> byte list" where
  "repair width height bpp pixels =
     (let expected_len = width * height * bpp in
      if length pixels < expected_len then
        if width * bpp = 0 then Inl (Uncaught ZeroDivisionError)
        else
          let height = length pixels div (width * bpp);
              pixels = take (width * height * bpp) pixels
          in Inr (height, pixels)
      else Inr (height, pixels))"

text \<open>
  Lines 68 to 85, the \<^verbatim>\<open>try\<close> block up to the image constructor: the bytes handed to
  \<^verbatim>\<open>Image.frombytes\<close> for the selected format. An exception of a converter is caught by
  \<^verbatim>\<open>except Exception\<close>.
\<close>

definition unpack :: "int \<Rightarrow> byte list \<Rightarrow> error + byte list" where
  "unpack fmt pixels =
     (if fmt = 0 then Inr pixels
      else if fmt = 1 then
        (case convert_rgb888_to_rgba pixels of
           Inl e \<Rightarrow> Inl (FailedToCreateImage e) | Inr px \<Rightarrow> Inr px)
      else if fmt = 2 then
        (case convert_rgb565_to_rgba pixels of
           Inl e \<Rightarrow> Inl (FailedToCreateImage e) | Inr px \<Rightarrow> Inr px)
      else if fmt = 3 then Inr (convert_grayscale_to_rgba pixels)
      else Inl UnsupportedFormat)"

text \<open>Lines 51 to 79: \<^verbatim>\<open>read_cim\<close> after decompression, on the decompressed stream.\<close>

definition decode_stream :: "byte list \<Rightarrow> int \<Rightarrow> error + image" where
  "decode_stream data fmt =
     (if length data < 12 then Inl FileTooShort
      else
        (case struct_unpack_III (take 12 data) of (width, height, file_fmt) \<Rightarrow>
          (let pixels = drop 12 data;
               bpp = bpp_of fmt
           in (case repair width height bpp pixels of
                 Inl e \<Rightarrow> Inl e
               | Inr (height, pixels) \<Rightarrow>
                   (case unpack fmt pixels of
                      Inl e \<Rightarrow> Inl e
                    | Inr px \<Rightarrow> Inr \<lparr>size_w = width, size_h = height, rgba = px\<rparr>)))))"

definition read_cim :: "(byte list \<Rightarrow> byte list option) \<Rightarrow> byte list \<Rightarrow> int \<Rightarrow> error + image" where
  "read_cim decompress compressed_data fmt =
     (case decompress compressed_data of
        None \<Rightarrow> Inl FailedToDecompress
      | Some data \<Rightarrow> decode_stream data fmt)"

subsection \<open>Encoding: \<^verbatim>\<open>write_cim\<close>\<close>

text \<open>
  \<^verbatim>\<open>struct.pack\<close> is outside any \<^verbatim>\<open>try\<close> block. The header carries format tag 0 and the
  image bytes follow it unchanged.
\<close>

definition write_cim :: "(byte list \<Rightarrow> byte list) \<Rightarrow> image \<Rightarrow> error + byte list" where
  "write_cim compress img =
     (let width = size_w img; height = size_h img;
          raw_data = rgba img
      in (case struct_pack_III width height 0 of
            Inl e \<Rightarrow> Inl (Uncaught e)
          | Inr header \<Rightarrow> Inr (compress (header @ raw_data))))"

subsection \<open>Notions of the specification\<close>

text \<open>
  The RGB565 rule as the specification words it, on a 16-bit word: the 5-bit, 6-bit and
  5-bit fields, each expanded to 8 bits by shifting left and filling the low bits with
  the field's high bits; alpha is 255.
\<close>

definition rgb565_expand :: "16 word \<Rightarrow> byte list" where
  "rgb565_expand v =
     (let r = drop_bit 11 v AND 0x1F;
          g = drop_bit 5 v AND 0x3F;
          b = v AND 0x1F
      in [ucast (push_bit 3 r OR drop_bit 2 r),
          ucast (push_bit 2 g OR drop_bit 4 g),
          ucast (push_bit 3 b OR drop_bit 2 b),
          255])"

text \<open>The two bytes of a 16-bit word in big-endian order.\<close>

definition be16 :: "16 word \<Rightarrow> byte list" where
  "be16 v = [ucast (drop_bit 8 v), ucast v]"

text \<open>A buffer of whole RGBA pixels, each with alpha 255.\<close>

fun opaque :: "byte list \<Rightarrow> bool" where
  "opaque [] = True"
| "opaque (r # g # b # a # px) = (a = 255 \<and> opaque px)"
| "opaque _ = False"

text \<open>
  A stand-in for \<^verbatim>\<open>zlib\<close> at concrete inputs: a one-byte envelope, which
  \<open>toy_decompress\<close> refuses when the byte is missing or different.
\<close>

definition toy_compress :: "byte list \<Rightarrow> byte list" where
  "toy_compress x = 0x78 # x"

definition toy_decompress :: "byte list \<Rightarrow> byte list option" where
  "toy_decompress c = (case c of [] \<Rightarrow> None | b # x \<Rightarrow> if b = 0x78 then Some x else None)"

section \<open>Properties of the pixel converters\<close>

subsection \<open>RGB565: the channel values are bytes\<close>

lemma and31_bounds: "0 \<le> (x::int) AND 31" "(x::int) AND 31 < 32"
proof -
  have "x AND 31 \<le> 31" by (rule AND_upper2) simp
  then show "x AND 31 < 32" by simp
  show "0 \<le> x AND 31" by simp
qed

lemma and63_bounds: "0 \<le> (x::int) AND 63" "(x::int) AND 63 < 64"
proof -
  have "x AND 63 \<le> 63" by (rule AND_upper2) simp
  then show "x AND 63 < 64" by simp
  show "0 \<le> x AND 63" by simp
qed

lemma expand_byte:
  assumes "0 \<le> (r::int)" "r * 2 ^ k < 256"
  shows "0 \<le> push_bit k r OR drop_bit j r" "push_bit k r OR drop_bit j r < 256"
proof -
  show "0 \<le> push_bit k r OR drop_bit j r" using assms by simp
  have hi: "push_bit k r < 2 ^ 8" using assms by (simp add: push_bit_eq_mult)
  have "r \<le> r * 2 ^ k" using assms(1) by (simp add: mult_le_cancel_left1)
  moreover have "drop_bit j r \<le> r"
  proof -
    have "r div 2 ^ j \<le> r div 1" using assms(1) by (intro zdiv_mono2) simp_all
    then show ?thesis by (simp add: drop_bit_eq_div)
  qed
  ultimately have lo: "drop_bit j r < 2 ^ 8" using assms by simp
  have "push_bit k r OR drop_bit j r < 2 ^ 8"
    by (rule OR_upper) (use assms hi lo in simp_all)
  then show "push_bit k r OR drop_bit j r < 256" by simp
qed

text \<open>\<^verbatim>\<open>bytes([r, g, b, 255])\<close> never raises in \<^verbatim>\<open>convert_rgb565_to_rgba\<close>.\<close>

lemma rgb565_pixel_ok:
  "rgb565_pixel d0 d1 =
     (let val = push_bit 8 (uint d0) OR uint d1;
          r = drop_bit 11 val AND 0x1F;
          g = drop_bit 5 val AND 0x3F;
          b = val AND 0x1F
      in Inr [word_of_int (push_bit 3 r OR drop_bit 2 r),
              word_of_int (push_bit 2 g OR drop_bit 4 g),
              word_of_int (push_bit 3 b OR drop_bit 2 b),
              255])"
proof -
  define val where "val = push_bit 8 (uint d0) OR uint d1"
  have r: "0 \<le> drop_bit 11 val AND 31" "(drop_bit 11 val AND 31) * 2 ^ 3 < 256"
    using and31_bounds [of "drop_bit 11 val"] by simp_all
  have g: "0 \<le> drop_bit 5 val AND 63" "(drop_bit 5 val AND 63) * 2 ^ 2 < 256"
    using and63_bounds [of "drop_bit 5 val"] by simp_all
  have b: "0 \<le> val AND 31" "(val AND 31) * 2 ^ 3 < 256"
    using and31_bounds [of "val"] by simp_all
  show ?thesis
    unfolding rgb565_pixel_def bytes_of_def Let_def val_def [symmetric]
    using expand_byte [OF r, of 2] expand_byte [OF g, of 4] expand_byte [OF b, of 2]
    by simp
qed

lemma rgb565_pixel_Inr: "\<exists>r g b. rgb565_pixel d0 d1 = Inr [r, g, b, 255]"
  by (simp add: rgb565_pixel_ok Let_def)

lemma mask5: "(31::'a::ring_bit_operations) = mask 5"
  by (simp add: mask_eq_exp_minus_1)

lemma mask6: "(63::'a::ring_bit_operations) = mask 6"
  by (simp add: mask_eq_exp_minus_1)

text \<open>The integer arithmetic of the code agrees with the rule on 16-bit words.\<close>

lemma rgb565_pixel_word:
  "rgb565_pixel (ucast (drop_bit 8 v)) (ucast v) = Inr (rgb565_expand (v :: 16 word))"
  unfolding rgb565_pixel_ok rgb565_expand_def Let_def mask5 mask6
  apply simp
  apply (intro conjI bit_word_eqI)
    apply (auto simp add: bit_simps)
  done

lemma rgb565_words:
  "convert_rgb565_to_rgba (concat (map be16 ws)) = Inr (concat (map rgb565_expand ws))"
  by (induction ws) (simp_all add: be16_def rgb565_pixel_word)

subsection \<open>Which inputs the converters accept, and what they return\<close>

lemma rgb565_odd: "odd (length data) \<Longrightarrow> convert_rgb565_to_rgba data = Inl IndexError"
proof (induction data rule: convert_rgb565_to_rgba.induct)
  case (3 d0 d1 data)
  obtain r g b where "rgb565_pixel d0 d1 = Inr [r, g, b, 255]"
    using rgb565_pixel_Inr by blast
  with 3 show ?case by simp
qed simp_all

lemma rgb565_even:
  "even (length data) \<Longrightarrow>
   \<exists>out. convert_rgb565_to_rgba data = Inr out \<and> opaque out \<and> length out = 2 * length data"
proof (induction data rule: convert_rgb565_to_rgba.induct)
  case (3 d0 d1 data)
  obtain r g b where px: "rgb565_pixel d0 d1 = Inr [r, g, b, 255]"
    using rgb565_pixel_Inr by blast
  from 3 px obtain out where "convert_rgb565_to_rgba data = Inr out" "opaque out"
      "length out = 2 * length data"
    by auto
  with px show ?case by simp
qed simp_all

lemma rgb888_bad: "length data mod 3 \<noteq> 0 \<Longrightarrow> convert_rgb888_to_rgba data = Inl IndexError"
  by (induction data rule: convert_rgb888_to_rgba.induct) simp_all

lemma rgb888_good:
  "length data mod 3 = 0 \<Longrightarrow>
   \<exists>out. convert_rgb888_to_rgba data = Inr out \<and> opaque out \<and> 3 * length out = 4 * length data"
  by (induction data rule: convert_rgb888_to_rgba.induct) auto

lemma grayscale_opaque: "opaque (convert_grayscale_to_rgba data)"
  by (induction data) (simp_all add: convert_grayscale_to_rgba_def)

lemma grayscale_length: "length (convert_grayscale_to_rgba data) = 4 * length data"
  by (induction data) (simp_all add: convert_grayscale_to_rgba_def)

lemma opaque_nth:
  "opaque out \<Longrightarrow>
   length out mod 4 = 0 \<and> (\<forall>k. k < length out div 4 \<longrightarrow> out ! (4 * k + 3) = 255)"
proof (induction out rule: opaque.induct)
  case (2 r g b a px)
  then have a: "a = 255" and px: "opaque px" by simp_all
  have "(r # g # b # a # px) ! (4 * k + 3) = 255" if "k < length (r # g # b # a # px) div 4" for k
  proof (cases k)
    case 0
    then show ?thesis using a by simp
  next
    case (Suc j)
    then have "j < length px div 4" using that by simp
    with 2 px have "px ! (4 * j + 3) = 255" by simp
    then show ?thesis using Suc by (simp add: add.commute)
  qed
  moreover have "length (r # g # b # a # px) mod 4 = 0" using 2 px by simp
  ultimately show ?case by blast
qed simp_all

lemma bpp_of_simps [simp]: "bpp_of 0 = 4" "bpp_of 1 = 3" "bpp_of 2 = 2" "bpp_of 3 = 1"
  by (simp_all add: bpp_of_def bpp_map_def)

lemma bpp_of_pos: "0 < bpp_of fmt"
  by (simp add: bpp_of_def bpp_map_def)

lemma unpack_opaque:
  assumes "fmt = 1 \<or> fmt = 2 \<or> fmt = 3" "unpack fmt data = Inr out"
  shows "opaque out"
proof -
  consider "fmt = 1" | "fmt = 2" | "fmt = 3" using assms(1) by blast
  then show ?thesis
  proof cases
    case 1
    show ?thesis
    proof (cases "length data mod 3 = 0")
      case True
      with rgb888_good [of data] 1 assms(2) show ?thesis by (auto simp: unpack_def)
    next
      case False
      with rgb888_bad [of data] 1 assms(2) show ?thesis by (simp add: unpack_def)
    qed
  next
    case 2
    show ?thesis
    proof (cases "even (length data)")
      case True
      with rgb565_even [of data] 2 assms(2) show ?thesis by (auto simp: unpack_def)
    next
      case False
      with rgb565_odd [of data] 2 assms(2) show ?thesis by (simp add: unpack_def)
    qed
  next
    case 3
    with assms(2) grayscale_opaque [of data] show ?thesis by (auto simp: unpack_def)
  qed
qed

section \<open>Properties of the header and of the repair step\<close>

lemma be_u32_4: "be_u32 [b0, b1, b2, b3] = ((unat b0 * 256 + unat b1) * 256 + unat b2) * 256 + unat b3"
  by (simp add: be_u32_def)

lemma be_u32_u32_bytes: "n < 2 ^ 32 \<Longrightarrow> be_u32 (u32_bytes n) = n"
proof -
  assume n: "n < 2 ^ 32"
  have split: "k = 256 * (k div 256) + k mod 256" for k :: nat by simp
  have d8: "n div 2 ^ 8 = n div 256" by simp
  have d16: "n div 2 ^ 16 = n div 256 div 256" by (simp add: div_mult2_eq)
  have d24: "n div 2 ^ 24 = n div 256 div 256 div 256" by (simp add: div_mult2_eq)
  have top: "n div 256 div 256 div 256 < 256" using n by (simp add: div_mult2_eq)
  show ?thesis
    unfolding u32_bytes_def be_u32_4 unat_of_nat d8 d16 d24
    using top by (simp add: mult.commute)
qed

lemma length_u32_bytes [simp]: "length (u32_bytes n) = 4"
  by (simp add: u32_bytes_def)

lemma unpack_pack:
  assumes "struct_pack_III a b c = Inr hdr"
  shows "length hdr = 12" "struct_unpack_III (take 12 (hdr @ p)) = (a, b, c)"
proof -
  from assms have lt: "a < 2 ^ 32" "b < 2 ^ 32" "c < 2 ^ 32"
    and hdr: "hdr = u32_bytes a @ u32_bytes b @ u32_bytes c"
    by (auto simp: struct_pack_III_def split: if_splits)
  show "length hdr = 12" by (simp add: hdr)
  then have "take 12 (hdr @ p) = hdr" by simp
  then show "struct_unpack_III (take 12 (hdr @ p)) = (a, b, c)"
    by (simp add: struct_unpack_III_def hdr be_u32_u32_bytes [OF lt(1)]
        be_u32_u32_bytes [OF lt(2)] be_u32_u32_bytes [OF lt(3)])
qed

lemma repair_short:
  assumes "length px < w * h * bpp"
  shows "repair w h bpp px = Inr (length px div (w * bpp), take (w * (length px div (w * bpp)) * bpp) px)"
    and "length (take (w * (length px div (w * bpp)) * bpp) px) = w * (length px div (w * bpp)) * bpp"
    and "length px div (w * bpp) < h"
proof -
  from assms have nz: "w * bpp \<noteq> 0" by (cases "w * bpp = 0") auto
  then show "repair w h bpp px = Inr (length px div (w * bpp), take (w * (length px div (w * bpp)) * bpp) px)"
    using assms by (simp add: repair_def Let_def)
  have "w * (length px div (w * bpp)) * bpp = (w * bpp) * (length px div (w * bpp))"
    by (simp add: mult_ac)
  also have "\<dots> \<le> length px" by simp
  finally show "length (take (w * (length px div (w * bpp)) * bpp) px) = w * (length px div (w * bpp)) * bpp"
    by simp
  have "length px < (w * bpp) * h" using assms by (simp add: mult_ac)
  then show "length px div (w * bpp) < h"
    using nz by (simp add: less_mult_imp_div_less mult.commute)
qed

lemma repair_enough:
  "\<not> length px < w * h * bpp \<Longrightarrow> repair w h bpp px = Inr (h, px)"
  by (simp add: repair_def)

lemma decode_stream_steps:
  assumes "12 \<le> length data" "struct_unpack_III (take 12 data) = (w, h, t)"
    "repair w h (bpp_of fmt) (drop 12 data) = Inr (h', px')"
  shows "decode_stream data fmt =
    (case unpack fmt px' of Inl e \<Rightarrow> Inl e
     | Inr out \<Rightarrow> Inr \<lparr>size_w = w, size_h = h', rgba = out\<rparr>)"
  using assms by (simp add: decode_stream_def)

lemma unpack_whole:
  assumes "fmt = 0 \<or> fmt = 1 \<or> fmt = 2 \<or> fmt = 3" "length px mod bpp_of fmt = 0"
  shows "\<exists>out. unpack fmt px = Inr out \<and> bpp_of fmt * length out = 4 * length px"
proof -
  consider "fmt = 0" | "fmt = 1" | "fmt = 2" | "fmt = 3" using assms(1) by blast
  then show ?thesis
  proof cases
    case 1
    then show ?thesis by (simp add: unpack_def)
  next
    case 2
    with assms(2) rgb888_good [of px] show ?thesis by (auto simp: unpack_def)
  next
    case 3
    with assms(2) rgb565_even [of px] show ?thesis by (auto simp: unpack_def)
  next
    case 4
    then show ?thesis by (simp add: unpack_def grayscale_length)
  qed
qed

lemma unpack_no_uncaught: "unpack fmt px \<noteq> Inl (Uncaught e)"
  by (simp add: unpack_def split: sum.splits)

lemma repair_total:
  "\<exists>h' px'. repair w h (bpp_of fmt) px = Inr (h', px')"
proof (cases "length px < w * h * bpp_of fmt")
  case True
  from repair_short(1) [OF True] show ?thesis by blast
next
  case False
  then show ?thesis by (simp add: repair_enough)
qed

lemma read_cim_steps:
  assumes "decompress c = Some data" "12 \<le> length data"
    "struct_unpack_III (take 12 data) = (w, h, t)"
    "repair w h (bpp_of fmt) (drop 12 data) = Inr (h', px')"
  shows "read_cim decompress c fmt =
    (case unpack fmt px' of Inl e \<Rightarrow> Inl e
     | Inr out \<Rightarrow> Inr \<lparr>size_w = w, size_h = h', rgba = out\<rparr>)"
  using decode_stream_steps [OF assms(2,3,4)] assms(1) by (simp add: read_cim_def)

lemma read_cim_no_uncaught: "read_cim decompress c fmt \<noteq> Inl (Uncaught e)"
proof (cases "decompress c")
  case None
  then show ?thesis by (simp add: read_cim_def)
next
  case (Some data)
  show ?thesis
  proof (cases "length data < 12")
    case True
    with Some show ?thesis by (simp add: read_cim_def decode_stream_def)
  next
    case False
    obtain w h t where hdr: "struct_unpack_III (take 12 data) = (w, h, t)"
      by (cases "struct_unpack_III (take 12 data)") auto
    obtain h' px' where rep: "repair w h (bpp_of fmt) (drop 12 data) = Inr (h', px')"
      using repair_total by blast
    from False have "12 \<le> length data" by simp
    from read_cim_steps [where decompress = decompress and c = c, OF Some this hdr rep] unpack_no_uncaught [of fmt px' e]
    show ?thesis by (auto split: sum.splits)
  qed
qed

lemma toy_zlib: "toy_decompress (toy_compress x) = Some x"
  by (simp add: toy_decompress_def toy_compress_def)

section \<open>The claims about the pixel converters\<close>

text \<open>
  C6. For every 16-bit big-endian input word, unpacking with RGB565 splits the word into
  its 5-bit R, 6-bit G and 5-bit B fields and expands each to 8 bits by bit replication,
  R = (r << 3) | (r >> 2), G = (g << 2) | (g >> 4), B = (b << 3) | (b >> 2), with alpha
  255; this holds word by word for any sequence of words. In particular the words 0xFFFF,
  0x0000 and 0xF800 give (255,255,255), (0,0,0) and (255,0,0).
\<close>

theorem rgb565_expansion:
  "unpack RGB565 (concat (map be16 ws)) = Inr (concat (map rgb565_expand ws))
   \<and> unpack RGB565 (be16 v) = Inr (rgb565_expand v)
   \<and> unpack RGB565 [0xFF, 0xFF] = Inr [255, 255, 255, 255]
   \<and> unpack RGB565 [0x00, 0x00] = Inr [0, 0, 0, 255]
   \<and> unpack RGB565 [0xF8, 0x00] = Inr [255, 0, 0, 255]"
proof -
  have words: "unpack RGB565 (concat (map be16 ws)) = Inr (concat (map rgb565_expand ws))" for ws
    by (simp add: unpack_def rgb565_words)
  have one: "unpack RGB565 (be16 v) = Inr (rgb565_expand v)"
    using words [of "[v]"] by simp
  have "unpack RGB565 [0xFF, 0xFF] = Inr [255, 255, 255, 255]"
    by (simp add: unpack_def rgb565_pixel_def bytes_of_def)
  moreover have "unpack RGB565 [0x00, 0x00] = Inr [0, 0, 0, 255]"
    by (simp add: unpack_def rgb565_pixel_def bytes_of_def)
  moreover have "unpack RGB565 [0xF8, 0x00] = Inr [255, 0, 0, 255]"
    by (simp add: unpack_def rgb565_pixel_def bytes_of_def)
  ultimately show ?thesis using words one by blast
qed

text \<open>
  C8. For every source format other than RGBA8888 (RGB888, RGB565, Grayscale8) and every
  input that unpacks, the output consists of whole 4-byte pixels and the alpha byte of
  every pixel is 255.
\<close>

theorem alpha_is_255:
  "fmt = RGB888 \<or> fmt = RGB565 \<or> fmt = Grayscale8 \<Longrightarrow> unpack fmt data = Inr out \<Longrightarrow>
   length out mod 4 = 0 \<and> (\<forall>k. k < length out div 4 \<longrightarrow> out ! (4 * k + 3) = 255)"
  by (rule opaque_nth) (rule unpack_opaque)

theorem alpha_is_255_witness:
  "(RGB565 = RGB888 \<or> RGB565 = RGB565 \<or> RGB565 = Grayscale8)
   \<and> unpack RGB565 [0xF8, 0x00, 0x12, 0x34] = Inr [255, 0, 0, 255, 16, 69, 165, 255]
   \<and> length [255, 0, 0, 255, 16, 69, 165, 255 :: byte] mod 4 = 0
   \<and> [255, 0, 0, 255, 16, 69, 165, 255 :: byte] ! (4 * 0 + 3) = 255
   \<and> [255, 0, 0, 255, 16, 69, 165, 255 :: byte] ! (4 * 1 + 3) = 255"
proof -
  have u: "unpack RGB565 [0xF8, 0x00, 0x12, 0x34] = Inr [255, 0, 0, 255, 16, 69, 165, 255]"
    by (simp add: unpack_def rgb565_pixel_def bytes_of_def)
  have f: "RGB565 = RGB888 \<or> RGB565 = RGB565 \<or> RGB565 = Grayscale8" by simp
  from alpha_is_255 [OF f u]
  have "[255, 0, 0, 255, 16, 69, 165, 255 :: byte] ! (4 * k + 3) = 255" if "k < 2" for k
    using that by simp
  from this [of 0] this [of 1] u show ?thesis by simp
qed

text \<open>
  C5, as stated, fails: for RGBA8888 the payload goes to the image constructor as it is,
  whatever its length, so five bytes unpack without any failure.
\<close>

theorem malformed_rgba_counterexample:
  "length [1, 2, 3, 4, 5 :: byte] mod bpp_of RGBA8888 \<noteq> 0
   \<and> unpack RGBA8888 [1, 2, 3, 4, 5] = Inr [1, 2, 3, 4, 5]"
  by (simp add: unpack_def)

text \<open>
  C5, amended. For RGB888 and RGB565, every input whose length is not a multiple of the
  format's bytes per pixel makes unpacking fail: the converter raises \<^verbatim>\<open>IndexError\<close> at
  the incomplete last pixel, which \<^verbatim>\<open>read_cim\<close> catches and reports as a failure to create
  the image; nothing is truncated silently. For RGBA8888 the bytes are passed on
  unchanged without a length check, and for Grayscale8 every length is a multiple of the
  one byte per pixel.
\<close>

theorem malformed_length:
  "(fmt = RGB888 \<or> fmt = RGB565 \<longrightarrow> length data mod bpp_of fmt \<noteq> 0 \<longrightarrow>
      unpack fmt data = Inl (FailedToCreateImage IndexError))
   \<and> unpack RGBA8888 data = Inr data
   \<and> length data mod bpp_of Grayscale8 = 0"
proof -
  have "unpack RGB888 data = Inl (FailedToCreateImage IndexError)"
    if "length data mod bpp_of RGB888 \<noteq> 0"
    using that rgb888_bad [of data] by (simp add: unpack_def)
  moreover have "unpack RGB565 data = Inl (FailedToCreateImage IndexError)"
    if "length data mod bpp_of RGB565 \<noteq> 0"
    using that rgb565_odd [of data] by (simp add: unpack_def odd_iff_mod_2_eq_one)
  moreover have "unpack RGBA8888 data = Inr data" by (simp add: unpack_def)
  ultimately show ?thesis by auto
qed

theorem malformed_length_witness:
  "(RGB888 = RGB888 \<or> RGB888 = RGB565) \<and> length [1, 2, 3, 4 :: byte] mod bpp_of RGB888 \<noteq> 0
   \<and> unpack RGB888 [1, 2, 3, 4] = Inl (FailedToCreateImage IndexError)"
  using malformed_length [of RGB888 "[1, 2, 3, 4]"] by simp

section \<open>The claims about decoding\<close>

text \<open>
  C10. Whenever decoding succeeds, the width of the returned image is the width field
  parsed from the header (the first four bytes of the decompressed stream, big-endian);
  the repair step returns a height and a payload only.
\<close>

theorem width_unchanged:
  assumes "decompress c = Some data" "read_cim decompress c fmt = Inr img"
  shows "12 \<le> length data \<and> size_w img = fst (struct_unpack_III (take 12 data))
         \<and> size_w img = be_u32 (take 4 data)"
proof -
  from assms have d: "decode_stream data fmt = Inr img" by (simp add: read_cim_def)
  then have len: "12 \<le> length data"
    by (auto simp: decode_stream_def split: if_splits)
  obtain w h t where hdr: "struct_unpack_III (take 12 data) = (w, h, t)"
    by (cases "struct_unpack_III (take 12 data)") auto
  from d len hdr have "size_w img = w"
    by (auto simp: decode_stream_def Let_def split: sum.splits prod.splits)
  moreover from hdr len have "w = be_u32 (take 4 data)"
    by (auto simp: struct_unpack_III_def min_def)
  ultimately show ?thesis using len hdr by simp
qed

theorem width_unchanged_witness:
  "toy_decompress [0x78, 0, 0, 1, 2, 0, 0, 0, 3, 0, 0, 0, 9, 5, 6] =
     Some [0, 0, 1, 2, 0, 0, 0, 3, 0, 0, 0, 9, 5, 6]
   \<and> read_cim toy_decompress [0x78, 0, 0, 1, 2, 0, 0, 0, 3, 0, 0, 0, 9, 5, 6] Grayscale8 =
     Inr \<lparr>size_w = 258, size_h = 0, rgba = []\<rparr>
   \<and> fst (struct_unpack_III (take 12 [0, 0, 1, 2, 0, 0, 0, 3, 0, 0, 0, 9, 5, 6])) = 258
   \<and> size_w \<lparr>size_w = 258, size_h = 0, rgba = []\<rparr> =
     be_u32 (take 4 [0, 0, 1, 2, 0, 0, 0, 3, 0, 0, 0, 9, 5, 6])"
proof -
  let ?data = "[0, 0, 1, 2, 0, 0, 0, 3, 0, 0, 0, 9, 5, 6 :: byte]"
  have a: "toy_decompress (0x78 # ?data) = Some ?data"
    by (simp add: toy_decompress_def)
  have b: "read_cim toy_decompress (0x78 # ?data) Grayscale8 =
      Inr \<lparr>size_w = 258, size_h = 0, rgba = []\<rparr>"
    by (simp add: read_cim_def a decode_stream_def struct_unpack_III_def be_u32_def
        repair_def unpack_def convert_grayscale_to_rgba_def)
  from width_unchanged [where decompress = toy_decompress, OF a b] a b show ?thesis by simp
qed

text \<open>
  C7. Two decompressed streams that differ only in the format tag (bytes 8 to 11 of the
  header) decode to identical results under every caller-selected format: the same error,
  or the same dimensions and the same pixel bytes.
\<close>

theorem tag_ignored:
  assumes "decompress c1 = Some d1" "decompress c2 = Some d2"
    "length d1 = length d2" "take 8 d1 = take 8 d2" "drop 12 d1 = drop 12 d2"
  shows "read_cim decompress c1 fmt = read_cim decompress c2 fmt"
proof -
  have w: "take 4 d1 = take 4 d2"
    using arg_cong [OF assms(4), of "take 4"] by simp
  have h: "take 4 (drop 4 d1) = take 4 (drop 4 d2)"
    using arg_cong [OF assms(4), of "drop 4"] by (simp add: drop_take)
  obtain width height t1 where u1: "struct_unpack_III (take 12 d1) = (width, height, t1)"
    by (cases "struct_unpack_III (take 12 d1)") auto
  obtain t2 where u2: "struct_unpack_III (take 12 d2) = (width, height, t2)"
    using u1 w h by (simp add: struct_unpack_III_def drop_take)
  have "decode_stream d1 fmt = decode_stream d2 fmt"
    using assms(3,5) u1 u2 by (simp add: decode_stream_def)
  then show ?thesis using assms(1,2) by (simp add: read_cim_def)
qed

theorem tag_ignored_witness:
  "toy_decompress [0x78, 0, 0, 0, 2, 0, 0, 0, 1, 0, 0, 0, 0, 0xF8, 0, 0xFF, 0xFF] =
     Some [0, 0, 0, 2, 0, 0, 0, 1, 0, 0, 0, 0, 0xF8, 0, 0xFF, 0xFF]
   \<and> toy_decompress [0x78, 0, 0, 0, 2, 0, 0, 0, 1, 0xAB, 0xCD, 0xEF, 3, 0xF8, 0, 0xFF, 0xFF] =
     Some [0, 0, 0, 2, 0, 0, 0, 1, 0xAB, 0xCD, 0xEF, 3, 0xF8, 0, 0xFF, 0xFF]
   \<and> read_cim toy_decompress [0x78, 0, 0, 0, 2, 0, 0, 0, 1, 0, 0, 0, 0, 0xF8, 0, 0xFF, 0xFF] RGB565 =
     read_cim toy_decompress [0x78, 0, 0, 0, 2, 0, 0, 0, 1, 0xAB, 0xCD, 0xEF, 3, 0xF8, 0, 0xFF, 0xFF] RGB565
   \<and> read_cim toy_decompress [0x78, 0, 0, 0, 2, 0, 0, 0, 1, 0, 0, 0, 0, 0xF8, 0, 0xFF, 0xFF] RGB565 =
     Inr \<lparr>size_w = 2, size_h = 1, rgba = [255, 0, 0, 255, 255, 255, 255, 255]\<rparr>"
proof -
  let ?d1 = "[0, 0, 0, 2, 0, 0, 0, 1, 0, 0, 0, 0, 0xF8, 0, 0xFF, 0xFF :: byte]"
  let ?d2 = "[0, 0, 0, 2, 0, 0, 0, 1, 0xAB, 0xCD, 0xEF, 3, 0xF8, 0, 0xFF, 0xFF :: byte]"
  have a: "toy_decompress (0x78 # ?d1) = Some ?d1" by (simp add: toy_decompress_def)
  have b: "toy_decompress (0x78 # ?d2) = Some ?d2" by (simp add: toy_decompress_def)
  have l: "length ?d1 = length ?d2" by simp
  have t: "take 8 ?d1 = take 8 ?d2" by simp
  have d: "drop 12 ?d1 = drop 12 ?d2" by simp
  have v: "read_cim toy_decompress (0x78 # ?d1) RGB565 =
      Inr \<lparr>size_w = 2, size_h = 1, rgba = [255, 0, 0, 255, 255, 255, 255, 255]\<rparr>"
    by (simp add: read_cim_def a decode_stream_def struct_unpack_III_def be_u32_def
        repair_def unpack_def rgb565_pixel_def bytes_of_def)
  from tag_ignored [of toy_decompress "0x78 # ?d1" ?d1 "0x78 # ?d2" ?d2 RGB565, OF a b l t d] a b v show ?thesis by simp
qed

text \<open>
  C1. Round trip. For every width \<open>w > 0\<close> and height \<open>h > 0\<close> (values of the header's
  unsigned 32-bit fields) and every RGBA buffer \<open>p\<close> of length \<open>w * h * 4\<close>, encoding the
  image \<open>{w, h, p}\<close> succeeds, and decoding the result with format RGBA8888 returns
  exactly \<open>{w, h, p}\<close>, for any compressor whose decompressor inverts it.
\<close>

theorem roundtrip:
  fixes w h :: "32 word"
  assumes zlib: "\<forall>x. decompress (compress x) = Some x"
    and "0 < w" "0 < h" "length p = unat w * unat h * 4"
  shows "\<exists>c. write_cim compress \<lparr>size_w = unat w, size_h = unat h, rgba = p\<rparr> = Inr c
           \<and> read_cim decompress c RGBA8888 = Inr \<lparr>size_w = unat w, size_h = unat h, rgba = p\<rparr>"
proof -
  have "unat w < 2 ^ 32" "unat h < 2 ^ 32"
    using unsigned_less [of w] unsigned_less [of h] by simp_all
  then obtain hdr where hdr: "struct_pack_III (unat w) (unat h) 0 = Inr hdr"
    by (simp add: struct_pack_III_def)
  have enc: "write_cim compress \<lparr>size_w = unat w, size_h = unat h, rgba = p\<rparr> =
      Inr (compress (hdr @ p))"
    by (simp add: write_cim_def hdr)
  have len: "length hdr = 12" and parse: "struct_unpack_III (take 12 (hdr @ p)) = (unat w, unat h, 0)"
    using unpack_pack [OF hdr] by simp_all
  have rep: "repair (unat w) (unat h) (bpp_of RGBA8888) (drop 12 (hdr @ p)) = Inr (unat h, p)"
    using assms(4) len by (simp add: repair_enough)
  have "decode_stream (hdr @ p) RGBA8888 = Inr \<lparr>size_w = unat w, size_h = unat h, rgba = p\<rparr>"
    using decode_stream_steps [OF _ parse rep] len by (simp add: unpack_def)
  then have "read_cim decompress (compress (hdr @ p)) RGBA8888 =
      Inr \<lparr>size_w = unat w, size_h = unat h, rgba = p\<rparr>"
    using zlib by (simp add: read_cim_def)
  with enc show ?thesis by blast
qed

theorem roundtrip_witness:
  "(\<forall>x. toy_decompress (toy_compress x) = Some x)
   \<and> 0 < (2 :: 32 word) \<and> 0 < (1 :: 32 word)
   \<and> length [1, 2, 3, 4, 5, 6, 7, 8 :: byte] = unat (2 :: 32 word) * unat (1 :: 32 word) * 4
   \<and> write_cim toy_compress \<lparr>size_w = 2, size_h = 1, rgba = [1, 2, 3, 4, 5, 6, 7, 8]\<rparr> =
       Inr [0x78, 0, 0, 0, 2, 0, 0, 0, 1, 0, 0, 0, 0, 1, 2, 3, 4, 5, 6, 7, 8]
   \<and> read_cim toy_decompress [0x78, 0, 0, 0, 2, 0, 0, 0, 1, 0, 0, 0, 0, 1, 2, 3, 4, 5, 6, 7, 8] RGBA8888 =
       Inr \<lparr>size_w = 2, size_h = 1, rgba = [1, 2, 3, 4, 5, 6, 7, 8]\<rparr>"
proof -
  have z: "\<forall>x. toy_decompress (toy_compress x) = Some x" by (simp add: toy_zlib)
  have l: "length [1, 2, 3, 4, 5, 6, 7, 8 :: byte] = unat (2 :: 32 word) * unat (1 :: 32 word) * 4"
    by simp
  have e: "write_cim toy_compress \<lparr>size_w = 2, size_h = 1, rgba = [1, 2, 3, 4, 5, 6, 7, 8]\<rparr> =
       Inr [0x78, 0, 0, 0, 2, 0, 0, 0, 1, 0, 0, 0, 0, 1, 2, 3, 4, 5, 6, 7, 8]"
    by (simp add: write_cim_def struct_pack_III_def u32_bytes_def toy_compress_def)
  have w: "0 < (2 :: 32 word)" and h: "0 < (1 :: 32 word)" by simp_all
  from roundtrip [of toy_decompress toy_compress 2 1 "[1, 2, 3, 4, 5, 6, 7, 8]", OF z w h l] e z
  show ?thesis by simp
qed

text \<open>
  C2. Repair rule. When the width is positive, the selected format is one of the four
  variants and the payload after the 12-byte header has fewer than
  \<open>width * height * bpp\<close> bytes, decoding recomputes the height as
  \<open>payload_length div (width * bpp)\<close>, truncates the payload to exactly
  \<open>width * new_height * bpp\<close> bytes, unpacks it without an error and reaches the image
  constructor with the width, the new height and \<open>width * new_height * 4\<close> bytes. With
  width 10, height 10, RGB888 and a 250-byte payload the new height is 8 and the payload
  has 240 bytes.
\<close>

theorem repair_rule:
  assumes "decompress c = Some data" "12 \<le> length data"
    and "struct_unpack_III (take 12 data) = (w, h, t)"
    and "0 < w" "fmt = RGBA8888 \<or> fmt = RGB888 \<or> fmt = RGB565 \<or> fmt = Grayscale8"
    and "length (drop 12 data) < w * h * bpp_of fmt"
  shows "let h' = length (drop 12 data) div (w * bpp_of fmt);
             px' = take (w * h' * bpp_of fmt) (drop 12 data)
         in repair w h (bpp_of fmt) (drop 12 data) = Inr (h', px')
            \<and> length px' = w * h' * bpp_of fmt
            \<and> (\<exists>out. unpack fmt px' = Inr out \<and> length out = w * h' * 4
                 \<and> read_cim decompress c fmt = Inr \<lparr>size_w = w, size_h = h', rgba = out\<rparr>)
            \<and> (w = 10 \<and> h = 10 \<and> fmt = RGB888 \<and> length (drop 12 data) = 250 \<longrightarrow>
                 h' = 8 \<and> length px' = 240)"
proof -
  define h' where "h' = length (drop 12 data) div (w * bpp_of fmt)"
  define px' where "px' = take (w * h' * bpp_of fmt) (drop 12 data)"
  note short = repair_short [OF assms(6), folded h'_def, folded px'_def]
  have rep: "repair w h (bpp_of fmt) (drop 12 data) = Inr (h', px')" by (rule short(1))
  have len: "length px' = w * h' * bpp_of fmt" by (rule short(2))
  then have "length px' mod bpp_of fmt = 0" by simp
  from unpack_whole [OF assms(5) this] obtain out
    where out: "unpack fmt px' = Inr out" "bpp_of fmt * length out = 4 * length px'"
    by blast
  have "bpp_of fmt * length out = bpp_of fmt * (w * h' * 4)"
    using out(2) len by (simp add: mult_ac)
  then have olen: "length out = w * h' * 4" using bpp_of_pos [of fmt] by simp
  have "decode_stream data fmt = Inr \<lparr>size_w = w, size_h = h', rgba = out\<rparr>"
    using decode_stream_steps [OF assms(2,3) rep] out(1) by simp
  then have dec: "read_cim decompress c fmt = Inr \<lparr>size_w = w, size_h = h', rgba = out\<rparr>"
    using assms(1) by (simp add: read_cim_def)
  have ex: "h' = 8 \<and> length px' = 240"
    if "w = 10 \<and> h = 10 \<and> fmt = RGB888 \<and> length (drop 12 data) = 250"
    using that len by (simp add: h'_def)
  show ?thesis
    unfolding Let_def h'_def [symmetric] px'_def [symmetric]
    using rep len out(1) olen dec ex by blast
qed

theorem repair_rule_witness:
  "toy_decompress (0x78 # [0, 0, 0, 10, 0, 0, 0, 10, 0, 0, 0, 0] @ replicate 250 7) =
     Some ([0, 0, 0, 10, 0, 0, 0, 10, 0, 0, 0, 0] @ replicate 250 7)
   \<and> 12 \<le> length ([0, 0, 0, 10, 0, 0, 0, 10, 0, 0, 0, 0] @ replicate 250 (7 :: byte))
   \<and> struct_unpack_III (take 12 ([0, 0, 0, 10, 0, 0, 0, 10, 0, 0, 0, 0] @ replicate 250 7)) = (10, 10, 0)
   \<and> 0 < (10 :: nat)
   \<and> (RGB888 = RGBA8888 \<or> RGB888 = RGB888 \<or> RGB888 = RGB565 \<or> RGB888 = Grayscale8)
   \<and> length (drop 12 ([0, 0, 0, 10, 0, 0, 0, 10, 0, 0, 0, 0] @ replicate 250 (7 :: byte))) < 10 * 10 * bpp_of RGB888
   \<and> repair 10 10 (bpp_of RGB888) (drop 12 ([0, 0, 0, 10, 0, 0, 0, 10, 0, 0, 0, 0] @ replicate 250 7)) =
       Inr (8, replicate 240 7)
   \<and> (\<exists>out. length out = 320
         \<and> read_cim toy_decompress (0x78 # [0, 0, 0, 10, 0, 0, 0, 10, 0, 0, 0, 0] @ replicate 250 7) RGB888 =
           Inr \<lparr>size_w = 10, size_h = 8, rgba = out\<rparr>)"
proof -
  let ?data = "[0, 0, 0, 10, 0, 0, 0, 10, 0, 0, 0, 0] @ replicate 250 (7 :: byte)"
  have a: "toy_decompress (0x78 # ?data) = Some ?data" by (simp add: toy_decompress_def)
  have b: "12 \<le> length ?data" by simp
  have c: "struct_unpack_III (take 12 ?data) = (10, 10, 0)"
    by (simp add: struct_unpack_III_def be_u32_def)
  have d: "0 < (10 :: nat)" by simp
  have e: "RGB888 = RGBA8888 \<or> RGB888 = RGB888 \<or> RGB888 = RGB565 \<or> RGB888 = Grayscale8" by simp
  have f: "length (drop 12 ?data) < 10 * 10 * bpp_of RGB888" by simp
  from repair_rule [where decompress = toy_decompress and c = "0x78 # ?data", OF a b c d e f] a b c f show ?thesis by (simp add: Let_def) blast
qed

text \<open>
  C4, as stated, fails: a payload longer than \<open>width * height * bpp\<close> is not shortened.
  With width 1, height 1 and Grayscale8, a two-byte payload is unpacked as it is.
\<close>

theorem payload_length_counterexample:
  "repair 1 1 (bpp_of Grayscale8) [5, 6] = Inr (1, [5, 6])
   \<and> length [5, 6 :: byte] \<noteq> 1 * 1 * bpp_of Grayscale8
   \<and> read_cim toy_decompress [0x78, 0, 0, 0, 1, 0, 0, 0, 1, 0, 0, 0, 0, 5, 6] Grayscale8 =
       Inr \<lparr>size_w = 1, size_h = 1, rgba = [5, 5, 5, 255, 6, 6, 6, 255]\<rparr>"
  by (simp add: toy_decompress_def read_cim_def decode_stream_def struct_unpack_III_def
      be_u32_def repair_def unpack_def convert_grayscale_to_rgba_def)

text \<open>
  C4, amended. In every decode that reaches the repair step, the step does not fail, and
  when unpacking is attempted the payload has at least \<open>width * height * bpp\<close> bytes for
  the height after the repair; it has exactly that many whenever the original payload was
  not longer than \<open>width * height * bpp\<close> for the declared height.
\<close>

theorem payload_length_at_unpack:
  assumes "decompress c = Some data" "12 \<le> length data"
    and "struct_unpack_III (take 12 data) = (w, h, t)"
  shows "\<exists>h' px'. repair w h (bpp_of fmt) (drop 12 data) = Inr (h', px')
     \<and> read_cim decompress c fmt =
         (case unpack fmt px' of
            Inl e \<Rightarrow> Inl e
          | Inr out \<Rightarrow> Inr \<lparr>size_w = w, size_h = h', rgba = out\<rparr>)
     \<and> w * h' * bpp_of fmt \<le> length px'
     \<and> (length (drop 12 data) \<le> w * h * bpp_of fmt \<longrightarrow> length px' = w * h' * bpp_of fmt)"
proof (cases "length (drop 12 data) < w * h * bpp_of fmt")
  case True
  define h' where "h' = length (drop 12 data) div (w * bpp_of fmt)"
  define px' where "px' = take (w * h' * bpp_of fmt) (drop 12 data)"
  note short = repair_short [OF True, folded h'_def, folded px'_def]
  have rep: "repair w h (bpp_of fmt) (drop 12 data) = Inr (h', px')" by (rule short(1))
  have dec: "read_cim decompress c fmt =
      (case unpack fmt px' of
         Inl e \<Rightarrow> Inl e
       | Inr out \<Rightarrow> Inr \<lparr>size_w = w, size_h = h', rgba = out\<rparr>)"
    by (rule read_cim_steps [where decompress = decompress and c = c, OF assms rep])
  have len: "length px' = w * h' * bpp_of fmt" by (rule short(2))
  then have le: "w * h' * bpp_of fmt \<le> length px'" by linarith
  show ?thesis using rep dec len le by blast
next
  case False
  have rep: "repair w h (bpp_of fmt) (drop 12 data) = Inr (h, drop 12 data)"
    using False by (simp add: repair_enough)
  have dec: "read_cim decompress c fmt =
      (case unpack fmt (drop 12 data) of
         Inl e \<Rightarrow> Inl e
       | Inr out \<Rightarrow> Inr \<lparr>size_w = w, size_h = h, rgba = out\<rparr>)"
    by (rule read_cim_steps [where decompress = decompress and c = c, OF assms rep])
  have le: "w * h * bpp_of fmt \<le> length (drop 12 data)" using False by linarith
  have eq: "length (drop 12 data) = w * h * bpp_of fmt"
    if "length (drop 12 data) \<le> w * h * bpp_of fmt"
    using that le by linarith
  show ?thesis using rep dec le eq by blast
qed

theorem payload_length_at_unpack_witness:
  "toy_decompress [0x78, 0, 0, 0, 2, 0, 0, 0, 3, 0, 0, 0, 0, 1, 2, 3, 4, 5] =
     Some [0, 0, 0, 2, 0, 0, 0, 3, 0, 0, 0, 0, 1, 2, 3, 4, 5]
   \<and> 12 \<le> length [0, 0, 0, 2, 0, 0, 0, 3, 0, 0, 0, 0, 1, 2, 3, 4, 5 :: byte]
   \<and> struct_unpack_III (take 12 [0, 0, 0, 2, 0, 0, 0, 3, 0, 0, 0, 0, 1, 2, 3, 4, 5]) = (2, 3, 0)
   \<and> length (drop 12 [0, 0, 0, 2, 0, 0, 0, 3, 0, 0, 0, 0, 1, 2, 3, 4, 5 :: byte])
        \<le> 2 * 3 * bpp_of Grayscale8
   \<and> repair 2 3 (bpp_of Grayscale8) (drop 12 [0, 0, 0, 2, 0, 0, 0, 3, 0, 0, 0, 0, 1, 2, 3, 4, 5]) =
        Inr (2, [1, 2, 3, 4])
   \<and> length [1, 2, 3, 4 :: byte] = 2 * 2 * bpp_of Grayscale8"
proof -
  let ?data = "[0, 0, 0, 2, 0, 0, 0, 3, 0, 0, 0, 0, 1, 2, 3, 4, 5 :: byte]"
  have a: "toy_decompress (0x78 # ?data) = Some ?data" by (simp add: toy_decompress_def)
  have b: "12 \<le> length ?data" by simp
  have c: "struct_unpack_III (take 12 ?data) = (2, 3, 0)"
    by (simp add: struct_unpack_III_def be_u32_def)
  have r: "repair 2 3 (bpp_of Grayscale8) (drop 12 ?data) = Inr (2, [1, 2, 3, 4])"
    by (simp add: repair_def)
  from payload_length_at_unpack [where decompress = toy_decompress and c = "0x78 # ?data"
      and fmt = Grayscale8, OF a b c]
  obtain h' px' where "repair 2 3 (bpp_of Grayscale8) (drop 12 ?data) = Inr (h', px')"
    and "length (drop 12 ?data) \<le> 2 * 3 * bpp_of Grayscale8 \<longrightarrow>
         length px' = 2 * h' * bpp_of Grayscale8"
    by blast
  with r have "length [1, 2, 3, 4 :: byte] = 2 * 2 * bpp_of Grayscale8" by simp
  with a b c r show ?thesis by simp
qed

text \<open>
  C9, as stated, fails: with a declared height of 0 the payload is not short, so the
  repair step is not entered and a non-empty payload of less than one row is kept.
\<close>

theorem zero_height_counterexample:
  "toy_decompress [0x78, 0, 0, 0, 2, 0, 0, 0, 0, 0, 0, 0, 0, 7] =
     Some [0, 0, 0, 2, 0, 0, 0, 0, 0, 0, 0, 0, 7]
   \<and> struct_unpack_III (take 12 [0, 0, 0, 2, 0, 0, 0, 0, 0, 0, 0, 0, 7]) = (2, 0, 0)
   \<and> length (drop 12 [0, 0, 0, 2, 0, 0, 0, 0, 0, 0, 0, 0, 7 :: byte]) < 2 * bpp_of RGBA8888
   \<and> repair 2 0 (bpp_of RGBA8888) [7] = Inr (0, [7])
   \<and> read_cim toy_decompress [0x78, 0, 0, 0, 2, 0, 0, 0, 0, 0, 0, 0, 0, 7] RGBA8888 =
       Inr \<lparr>size_w = 2, size_h = 0, rgba = [7]\<rparr>"
  by (simp add: toy_decompress_def read_cim_def decode_stream_def struct_unpack_III_def
      be_u32_def repair_def unpack_def)

text \<open>
  C9, amended. For a positive width, a supported format and a payload of fewer than
  \<open>width * bpp\<close> bytes, when the declared height is positive or the payload is empty, the
  height after the repair step is 0, the payload is empty, and decoding reaches the image
  constructor with height 0 and no pixel bytes, without an error.
\<close>

theorem zero_height:
  assumes "decompress c = Some data" "12 \<le> length data"
    and "struct_unpack_III (take 12 data) = (w, h, t)"
    and "0 < w" "fmt = RGBA8888 \<or> fmt = RGB888 \<or> fmt = RGB565 \<or> fmt = Grayscale8"
    and "length (drop 12 data) < w * bpp_of fmt"
    and "0 < h \<or> drop 12 data = []"
  shows "repair w h (bpp_of fmt) (drop 12 data) = Inr (0, [])
     \<and> read_cim decompress c fmt = Inr \<lparr>size_w = w, size_h = 0, rgba = []\<rparr>"
proof -
  have u: "unpack fmt [] = Inr []"
    using assms(5) by (auto simp: unpack_def convert_grayscale_to_rgba_def)
  have rep: "repair w h (bpp_of fmt) (drop 12 data) = Inr (0, [])"
  proof (cases "length (drop 12 data) < w * h * bpp_of fmt")
    case True
    from repair_short(1) [OF True] assms(6) show ?thesis by simp
  next
    case False
    have "\<not> 0 < h"
    proof
      assume "0 < h"
      then have "w * bpp_of fmt \<le> w * h * bpp_of fmt"
        by (cases h) (simp_all add: algebra_simps)
      with assms(6) False show False by linarith
    qed
    with assms(7) have "drop 12 data = []" and "h = 0" by simp_all
    then show ?thesis by (simp add: repair_def)
  qed
  from read_cim_steps [where decompress = decompress and c = c, OF assms(1,2,3) rep] u rep
  show ?thesis by simp
qed

theorem zero_height_witness:
  "toy_decompress [0x78, 0, 0, 0, 2, 0, 0, 0, 5, 0, 0, 0, 0, 7, 8, 9] =
     Some [0, 0, 0, 2, 0, 0, 0, 5, 0, 0, 0, 0, 7, 8, 9]
   \<and> 12 \<le> length [0, 0, 0, 2, 0, 0, 0, 5, 0, 0, 0, 0, 7, 8, 9 :: byte]
   \<and> struct_unpack_III (take 12 [0, 0, 0, 2, 0, 0, 0, 5, 0, 0, 0, 0, 7, 8, 9]) = (2, 5, 0)
   \<and> 0 < (2 :: nat)
   \<and> (RGB565 = RGBA8888 \<or> RGB565 = RGB888 \<or> RGB565 = RGB565 \<or> RGB565 = Grayscale8)
   \<and> length (drop 12 [0, 0, 0, 2, 0, 0, 0, 5, 0, 0, 0, 0, 7, 8, 9 :: byte]) < 2 * bpp_of RGB565
   \<and> (0 < (5 :: nat) \<or> drop 12 [0, 0, 0, 2, 0, 0, 0, 5, 0, 0, 0, 0, 7, 8, 9 :: byte] = [])
   \<and> repair 2 5 (bpp_of RGB565) (drop 12 [0, 0, 0, 2, 0, 0, 0, 5, 0, 0, 0, 0, 7, 8, 9]) = Inr (0, [])
   \<and> read_cim toy_decompress [0x78, 0, 0, 0, 2, 0, 0, 0, 5, 0, 0, 0, 0, 7, 8, 9] RGB565 =
       Inr \<lparr>size_w = 2, size_h = 0, rgba = []\<rparr>"
proof -
  let ?data = "[0, 0, 0, 2, 0, 0, 0, 5, 0, 0, 0, 0, 7, 8, 9 :: byte]"
  have a: "toy_decompress (0x78 # ?data) = Some ?data" by (simp add: toy_decompress_def)
  have b: "12 \<le> length ?data" by simp
  have c: "struct_unpack_III (take 12 ?data) = (2, 5, 0)"
    by (simp add: struct_unpack_III_def be_u32_def)
  have d: "0 < (2 :: nat)" by simp
  have e: "RGB565 = RGBA8888 \<or> RGB565 = RGB888 \<or> RGB565 = RGB565 \<or> RGB565 = Grayscale8" by simp
  have f: "length (drop 12 ?data) < 2 * bpp_of RGB565" by simp
  have g: "0 < (5 :: nat) \<or> drop 12 ?data = []" by simp
  from zero_height [where decompress = toy_decompress and c = "0x78 # ?data", OF a b c d e f g]
    a b c
  show ?thesis by simp
qed

text \<open>
  C3, as stated, fails: a header with width 0 is not rejected. The stream below decodes
  to an image of width 0 and height 5.
\<close>

theorem zero_width_counterexample:
  "toy_decompress [0x78, 0, 0, 0, 0, 0, 0, 0, 5, 0, 0, 0, 0] =
     Some [0, 0, 0, 0, 0, 0, 0, 5, 0, 0, 0, 0]
   \<and> fst (struct_unpack_III (take 12 [0, 0, 0, 0, 0, 0, 0, 5, 0, 0, 0, 0])) = 0
   \<and> read_cim toy_decompress [0x78, 0, 0, 0, 0, 0, 0, 0, 5, 0, 0, 0, 0] RGBA8888 =
     Inr \<lparr>size_w = 0, size_h = 5, rgba = []\<rparr>"
  by (simp add: toy_decompress_def read_cim_def decode_stream_def struct_unpack_III_def
      be_u32_def repair_def unpack_def)

text \<open>
  C3, amended. Decoding never divides by zero and never ends in an uncaught exception,
  for any input. When the parsed header has width 0, the repair step is not entered
  (the expected length is 0), the payload is unpacked as it is, and, unless unpacking
  fails, the image constructor is reached with width 0 and the declared height; no error
  is signalled for the zero width.
\<close>

theorem zero_width:
  "(\<forall>e. read_cim decompress c fmt \<noteq> Inl (Uncaught e))
   \<and> (decompress c = Some data \<and> 12 \<le> length data
        \<and> struct_unpack_III (take 12 data) = (0, h, t) \<longrightarrow>
      repair 0 h (bpp_of fmt) (drop 12 data) = Inr (h, drop 12 data)
      \<and> read_cim decompress c fmt =
          (case unpack fmt (drop 12 data) of
             Inl e \<Rightarrow> Inl e
           | Inr out \<Rightarrow> Inr \<lparr>size_w = 0, size_h = h, rgba = out\<rparr>))"
proof -
  have rep: "repair 0 h (bpp_of fmt) (drop 12 data) = Inr (h, drop 12 data)"
    by (simp add: repair_enough)
  have "read_cim decompress c fmt =
          (case unpack fmt (drop 12 data) of
             Inl e \<Rightarrow> Inl e
           | Inr out \<Rightarrow> Inr \<lparr>size_w = 0, size_h = h, rgba = out\<rparr>)"
    if "decompress c = Some data" "12 \<le> length data"
      "struct_unpack_III (take 12 data) = (0, h, t)"
    using read_cim_steps [where decompress = decompress and c = c, OF that rep] .
  with rep show ?thesis by (simp add: read_cim_no_uncaught)
qed

theorem zero_width_witness:
  "toy_decompress [0x78, 0, 0, 0, 0, 0, 0, 0, 5, 0, 0, 0, 0, 9] =
     Some [0, 0, 0, 0, 0, 0, 0, 5, 0, 0, 0, 0, 9]
   \<and> 12 \<le> length [0, 0, 0, 0, 0, 0, 0, 5, 0, 0, 0, 0, 9 :: byte]
   \<and> struct_unpack_III (take 12 [0, 0, 0, 0, 0, 0, 0, 5, 0, 0, 0, 0, 9]) = (0, 5, 0)
   \<and> repair 0 5 (bpp_of Grayscale8) [9] = Inr (5, [9])
   \<and> read_cim toy_decompress [0x78, 0, 0, 0, 0, 0, 0, 0, 5, 0, 0, 0, 0, 9] Grayscale8 =
       Inr \<lparr>size_w = 0, size_h = 5, rgba = [9, 9, 9, 255]\<rparr>"
proof -
  let ?data = "[0, 0, 0, 0, 0, 0, 0, 5, 0, 0, 0, 0, 9 :: byte]"
  have a: "toy_decompress (0x78 # ?data) = Some ?data" by (simp add: toy_decompress_def)
  have b: "12 \<le> length ?data" by simp
  have c: "struct_unpack_III (take 12 ?data) = (0, 5, 0)"
    by (simp add: struct_unpack_III_def be_u32_def)
  have u: "unpack Grayscale8 [9] = Inr [9, 9, 9, 255]"
    by (simp add: unpack_def convert_grayscale_to_rgba_def)
  from zero_width [where decompress = toy_decompress and c = "0x78 # ?data" and data = ?data
      and fmt = Grayscale8 and h = 5 and t = 0] a b c u
  show ?thesis by simp
qed

end
